theory Spec2Isabelle
  imports Main "HOL-Library.Char_ord" "HOL-Library.List_Lexorder" "HOL-Library.Product_Lexorder"
begin

section \<open>String and array primitives of the host language\<close>

text \<open>
  The extension is TypeScript. A string is modelled as a list of code units (\<open>char\<close>, so
  code units below 256); the primitives below are the library calls the command
  \<open>gitbranchfiles.selectBranchFiles\<close> of \<open>src/extension.ts\<close> makes on strings and arrays.
\<close>

definition newline :: char where
  "newline = CHR 0x0A"

text \<open>\<open>String.prototype.trim\<close> removes white space and line terminators at both ends; among
  the code units below 256 these are 9 to 13, 32 and 160.\<close>

definition isWhiteSpace :: "char \<Rightarrow> bool" where
  "isWhiteSpace c = ((of_char c :: nat) \<in> set [9, 10, 11, 12, 13, 32, 160])"

definition trim :: "string \<Rightarrow> string" where
  "trim s = rev (dropWhile isWhiteSpace (rev (dropWhile isWhiteSpace s)))"

text \<open>\<open>s.split(d)\<close> for a one-character separator: never empty, \<open>''''.split(d) = ['''']\<close>.\<close>

fun splitOn :: "char \<Rightarrow> string \<Rightarrow> string list" where
  "splitOn d [] = [[]]"
| "splitOn d (c # cs) =
     (if c = d then [] # splitOn d cs
      else (case splitOn d cs of [] \<Rightarrow> [[c]] | r # rs \<Rightarrow> (c # r) # rs))"

definition startsWith :: "string \<Rightarrow> string \<Rightarrow> bool" where
  "startsWith s p = (take (length p) s = p)"

definition endsWith :: "string \<Rightarrow> string \<Rightarrow> bool" where
  "endsWith s p = (length p \<le> length s \<and> drop (length s - length p) s = p)"

fun includesStr :: "string \<Rightarrow> string \<Rightarrow> bool" where
  "includesStr [] p = (p = [])"
| "includesStr (c # cs) p = (startsWith (c # cs) p \<or> includesStr cs p)"

text \<open>\<open>s.replace(p, r)\<close> with a string pattern replaces the first occurrence only.\<close>

fun replaceFirst :: "string \<Rightarrow> string \<Rightarrow> string \<Rightarrow> string" where
  "replaceFirst [] p r = (if p = [] then r else [])"
| "replaceFirst (c # cs) p r =
     (if startsWith (c # cs) p then r @ drop (length p) (c # cs)
      else c # replaceFirst cs p r)"

text \<open>The class \<open>\w\<close> of the regular expressions: letters, digits and the underscore.\<close>

definition isWordChar :: "char \<Rightarrow> bool" where
  "isWordChar c =
     (let n = (of_char c :: nat)
      in (48 \<le> n \<and> n \<le> 57) \<or> (65 \<le> n \<and> n \<le> 90) \<or> (97 \<le> n \<and> n \<le> 122) \<or> n = 95)"

text \<open>\<open>[...new Set(xs)]\<close>: the elements in the order of their first occurrence.\<close>

definition newSet :: "'a list \<Rightarrow> 'a list" where
  "newSet xs = foldl (\<lambda>acc x. if x \<in> set acc then acc else acc @ [x]) [] xs"

text \<open>
  \<open>Array.prototype.sort\<close> with a comparator is a stable sort; for a comparator that is a
  consistent ordering every stable sort gives the same array, here insertion sort: an
  element goes in front of the first later element it does not follow.
\<close>

fun insortCmp :: "('a \<Rightarrow> 'a \<Rightarrow> int) \<Rightarrow> 'a \<Rightarrow> 'a list \<Rightarrow> 'a list" where
  "insortCmp cmp x [] = [x]"
| "insortCmp cmp x (y # ys) = (if cmp x y \<le> 0 then x # y # ys else y # insortCmp cmp x ys)"

definition sortCmp :: "('a \<Rightarrow> 'a \<Rightarrow> int) \<Rightarrow> 'a list \<Rightarrow> 'a list" where
  "sortCmp cmp xs = foldr (insortCmp cmp) xs []"

text \<open>
  \<open>a.localeCompare(b, undefined, {sensitivity: 'base'})\<close> is the platform's collation at
  its first strength. The collation is not part of the repository: it is a parameter, the
  function giving each string its sort key at that strength; two strings compare as their
  keys do.
\<close>

type_synonym collation = "string \<Rightarrow> nat list"

definition localeCompare :: "collation \<Rightarrow> string \<Rightarrow> string \<Rightarrow> int" where
  "localeCompare coll a b = (if coll a < coll b then - 1 else if coll b < coll a then 1 else 0)"

text \<open>A collation for the examples: letters without their case, every other code unit by
  its code. On the strings of the examples it orders as the platform's collation does.\<close>

definition foldCase :: "char \<Rightarrow> nat" where
  "foldCase c = (let n = (of_char c :: nat) in if 65 \<le> n \<and> n \<le> 90 then n + 32 else n)"

definition baseLetters :: collation where
  "baseLetters s = map foldCase s"

section \<open>Running git\<close>

text \<open>
  \<open>cp.execSync(command, {cwd})\<close> returns the output of the command or throws. The system
  the commands run on is a parameter: from the commands run so far, the directory and the
  command it gives \<open>Inr\<close> the output or \<open>Inl\<close> the message of the error thrown. The same
  command may so fail once and succeed later. \<open>execSync\<close> also records the command.
\<close>

type_synonym sys = "string list \<Rightarrow> string \<Rightarrow> string \<Rightarrow> string + string"

definition execSync :: "sys \<Rightarrow> string \<Rightarrow> string \<Rightarrow> string list \<Rightarrow> (string + string) \<times> string list" where
  "execSync sys command cwd log = (sys log cwd command, log @ [command])"

definition notBlank :: "string \<Rightarrow> bool" where
  "notBlank s = (trim s \<noteq> [])"

text \<open>
  Two command lines of the handler end in \<open>| sort | uniq\<close>: the shell passes what the
  commands before print through \<open>sort\<close> and \<open>uniq\<close>. Both work on lines, a line ending at
  its newline: \<open>sort\<close> orders the lines (here by their codes, the order of the C locale;
  which lines come out does not depend on the order), \<open>uniq\<close> drops a line equal to the one
  before it, and every line is printed with its newline. For such a command line the system
  gives the text that reaches \<open>sort\<close>, or the error when the line throws.
\<close>

definition textLines :: "string \<Rightarrow> string list" where
  "textLines text =
     (let pieces = splitOn newline text in if last pieces = [] then butlast pieces else pieces)"

definition sortUniq :: "string \<Rightarrow> string" where
  "sortUniq text =
     concat (map (\<lambda>line. line @ [newline]) (remdups_adj (sort (textLines text))))"

definition execSyncSortUniq ::
  "sys \<Rightarrow> string \<Rightarrow> string \<Rightarrow> string list \<Rightarrow> (string + string) \<times> string list" where
  "execSyncSortUniq sys command cwd log =
     (case sys log cwd command of Inl e \<Rightarrow> Inl e | Inr text \<Rightarrow> Inr (sortUniq text),
      log @ [command])"

section \<open>Branch names\<close>

text \<open>Lines 326 to 329: \<open>remotes/origin/main\<close> becomes \<open>origin/main\<close>.\<close>

definition cleanRemotes :: "string \<Rightarrow> string" where
  "cleanRemotes branchName =
     (if includesStr branchName ''remotes/'' then replaceFirst branchName ''remotes/'' ''''
      else branchName)"

text \<open>Lines 486 and 487: \<open>name.replace(/^(refs\/heads\/|refs\/remotes\/\w+\/)/, '''')\<close>. The
  second alternative needs at least one word character and then a slash; a word character
  is no slash, so the run of word characters is the whole of \<open>\w+\<close>. \<open>refPrefix\<close> is the
  length of the match, if there is one; the replacement drops it.\<close>

definition refPrefix :: "string \<Rightarrow> nat option" where
  "refPrefix name =
     (if startsWith name ''refs/heads/'' then Some 11
      else if startsWith name ''refs/remotes/'' then
        (let word = takeWhile isWordChar (drop 13 name)
         in if word \<noteq> [] \<and> startsWith (drop (13 + length word) name) ''/''
            then Some (13 + length word + 1) else None)
      else None)"

definition normalizeRef :: "string \<Rightarrow> string" where
  "normalizeRef name = (case refPrefix name of None \<Rightarrow> name | Some n \<Rightarrow> drop n name)"

text \<open>Line 347.\<close>

definition isSameBranch :: "string \<Rightarrow> string \<Rightarrow> bool" where
  "isSameBranch branchName baseRef =
     (branchName = baseRef \<or> endsWith branchName (''/'' @ baseRef))"

text \<open>Lines 490 and 493.\<close>

definition isOnSelectedBranch :: "string \<Rightarrow> string \<Rightarrow> bool" where
  "isOnSelectedBranch currentBranch branchName =
     (normalizeRef currentBranch = normalizeRef branchName)"

definition isRemoteBranch :: "string \<Rightarrow> bool" where
  "isRemoteBranch branchName =
     (includesStr branchName ''/'' \<and> \<not> startsWith branchName ''refs/heads/'')"

section \<open>The git commands\<close>

definition getDirectoriesCommand :: string where
  "getDirectoriesCommand = ''git ls-files --directory | xargs -n 1 dirname | sort | uniq''"

definition workTreeCommand :: string where
  "workTreeCommand = ''git rev-parse --is-inside-work-tree''"

definition branchesCommand :: string where
  "branchesCommand = ''git branch --all''"

definition showRefCommand :: string where
  "showRefCommand = ''git show-ref --verify --quiet refs/heads/main''"

definition pathFilter :: "string \<Rightarrow> string" where
  \<open>pathFilter pathForGitCommands =
     (if pathForGitCommands \<noteq> [] then '' -- "'' @ pathForGitCommands @ ''"'' else [])\<close>

definition allFilesCommand :: "string \<Rightarrow> string \<Rightarrow> string" where
  \<open>allFilesCommand branchName pathForGitCommands =
     ''git log --name-only --format="" '' @ branchName @ pathFilter pathForGitCommands
       @ '' | sort | uniq''\<close>

definition mergeBaseCommand :: "string \<Rightarrow> string \<Rightarrow> string" where
  "mergeBaseCommand baseRef branchName = ''git merge-base '' @ baseRef @ '' '' @ branchName"

definition committedFilesCommand :: "string \<Rightarrow> string \<Rightarrow> string \<Rightarrow> string" where
  "committedFilesCommand mergeBase branchName pathForGitCommands =
     ''git diff --name-only --recurse-submodules '' @ mergeBase @ '' '' @ branchName
       @ pathFilter pathForGitCommands"

definition recentFilesCommand :: "string \<Rightarrow> string" where
  "recentFilesCommand pathForGitCommands =
     ''git log --name-only --pretty=format: -n 20'' @ pathFilter pathForGitCommands"

definition fallbackCommand :: "string \<Rightarrow> string \<Rightarrow> string \<Rightarrow> string" where
  "fallbackCommand baseRef branchName pathForGitCommands =
     ''git diff --name-only --recurse-submodules '' @ baseRef @ ''...'' @ branchName
       @ pathFilter pathForGitCommands"

definition statusCommand :: string where
  "statusCommand = ''git status --porcelain''"

definition currentBranchCommand :: string where
  "currentBranchCommand = ''git rev-parse --abbrev-ref HEAD''"

definition modifiedFilesCommand :: "string \<Rightarrow> string" where
  \<open>modifiedFilesCommand pathForGitCommands =
     ''git ls-files --modified --recurse-submodules''
       @ (if pathForGitCommands \<noteq> [] then '' "'' @ pathForGitCommands @ ''"'' else [])\<close>

section \<open>The committed files: three tiers\<close>

text \<open>Lines 461 to 469 and 500 to 509: the paths of the status lines, under the folder.\<close>

definition statusFiles :: "string \<Rightarrow> string list" where
  "statusFiles statusOutput =
     map (\<lambda>line. trim (drop 3 line)) (filter notBlank (splitOn newline statusOutput))"

definition underFolder :: "string \<Rightarrow> string list \<Rightarrow> string list" where
  "underFolder folderPath files =
     (if folderPath \<noteq> [] then filter (\<lambda>file. startsWith file folderPath) files else files)"

text \<open>Lines 345 to 436, the body of the first \<open>try\<close>. \<open>shouldVerifyCommits\<close> is the constant
  \<open>false\<close>, so its block never runs. A command that throws leaves the block at once. The
  history command of line 356 ends in \<open>| sort | uniq\<close>.\<close>

definition primaryTier ::
  "sys \<Rightarrow> string \<Rightarrow> string \<Rightarrow> string \<Rightarrow> string \<Rightarrow> string list
     \<Rightarrow> (string + string list) \<times> string list" where
  "primaryTier sys repoPath branchName baseRef pathForGitCommands log =
     (if isSameBranch branchName baseRef then
        (case execSyncSortUniq sys (allFilesCommand branchName pathForGitCommands) repoPath log of
           (Inl e, log1) \<Rightarrow> (Inl e, log1)
         | (Inr out, log1) \<Rightarrow> (Inr (filter notBlank (splitOn newline out)), log1))
      else
        (case execSync sys (mergeBaseCommand baseRef branchName) repoPath log of
           (Inl e, log1) \<Rightarrow> (Inl e, log1)
         | (Inr out, log1) \<Rightarrow>
             (case execSync sys (committedFilesCommand (trim out) branchName pathForGitCommands)
                     repoPath log1 of
                (Inl e, log2) \<Rightarrow> (Inl e, log2)
              | (Inr out2, log2) \<Rightarrow> (Inr (splitOn newline out2), log2))))"

text \<open>Lines 439 to 454, the body of the second \<open>try\<close>.\<close>

definition fallbackTier ::
  "sys \<Rightarrow> string \<Rightarrow> string \<Rightarrow> string \<Rightarrow> string \<Rightarrow> string list
     \<Rightarrow> (string + string list) \<times> string list" where
  "fallbackTier sys repoPath branchName baseRef pathForGitCommands log =
     (case execSync sys
             (if branchName = baseRef \<or> endsWith branchName (''/'' @ baseRef)
              then recentFilesCommand pathForGitCommands
              else fallbackCommand baseRef branchName pathForGitCommands)
             repoPath log of
        (Inl e, log1) \<Rightarrow> (Inl e, log1)
      | (Inr out, log1) \<Rightarrow> (Inr (splitOn newline out), log1))"

text \<open>Lines 457 to 470, the body of the third \<open>try\<close>.\<close>

definition statusTier ::
  "sys \<Rightarrow> string \<Rightarrow> string \<Rightarrow> string list \<Rightarrow> (string + string list) \<times> string list" where
  "statusTier sys repoPath folderPath log =
     (case execSync sys statusCommand repoPath log of
        (Inl e, log1) \<Rightarrow> (Inl e, log1)
      | (Inr out, log1) \<Rightarrow> (Inr (underFolder folderPath (statusFiles out)), log1))"

text \<open>Lines 344 to 476: each \<open>catch\<close> runs the next tier; the last one only logs, and
  \<open>committedFiles\<close> keeps its initial value, the empty array.\<close>

definition resolveCommitted ::
  "sys \<Rightarrow> string \<Rightarrow> string \<Rightarrow> string \<Rightarrow> string \<Rightarrow> string \<Rightarrow> string list
     \<Rightarrow> string list \<times> string list" where
  "resolveCommitted sys repoPath branchName baseRef folderPath pathForGitCommands log =
     (case primaryTier sys repoPath branchName baseRef pathForGitCommands log of
        (Inr files, log1) \<Rightarrow> (files, log1)
      | (Inl error, log1) \<Rightarrow>
          (case fallbackTier sys repoPath branchName baseRef pathForGitCommands log1 of
             (Inr files, log2) \<Rightarrow> (files, log2)
           | (Inl fallbackError, log2) \<Rightarrow>
               (case statusTier sys repoPath folderPath log2 of
                  (Inr files, log3) \<Rightarrow> (files, log3)
                | (Inl statusError, log3) \<Rightarrow> ([], log3))))"

section \<open>The modified files of the working tree\<close>

text \<open>Lines 479 to 528. \<open>modifiedFiles\<close> is assigned the status paths before the
  \<open>ls-files\<close> command runs, so it keeps them when that command throws.\<close>

definition scanModified ::
  "sys \<Rightarrow> string \<Rightarrow> string \<Rightarrow> string \<Rightarrow> string \<Rightarrow> string list
     \<Rightarrow> string list \<times> string list" where
  "scanModified sys repoPath branchName folderPath pathForGitCommands log =
     (case execSync sys currentBranchCommand repoPath log of
        (Inl e, log1) \<Rightarrow> ([], log1)
      | (Inr out, log1) \<Rightarrow>
          (if isOnSelectedBranch (trim out) branchName \<and> \<not> isRemoteBranch branchName then
             (case execSync sys statusCommand repoPath log1 of
                (Inl e, log2) \<Rightarrow> ([], log2)
              | (Inr statusOutput, log2) \<Rightarrow>
                  (let modifiedFiles = underFolder folderPath (statusFiles statusOutput) in
                   case execSync sys (modifiedFilesCommand pathForGitCommands) repoPath log2 of
                     (Inl e, log3) \<Rightarrow> (modifiedFiles, log3)
                   | (Inr lsOutput, log3) \<Rightarrow>
                       (newSet (modifiedFiles @ filter notBlank (splitOn newline lsOutput)),
                        log3)))
           else ([], log1)))"

section \<open>Merging, sorting and marking\<close>

text \<open>Lines 538 and 539.\<close>

definition looksLikeDir :: "string \<Rightarrow> bool" where
  "looksLikeDir a = (endsWith a ''/'' \<or> \<not> includesStr a ''.'')"

text \<open>Lines 536 to 547, the comparator.\<close>

definition compareFiles :: "collation \<Rightarrow> string \<Rightarrow> string \<Rightarrow> int" where
  "compareFiles coll a b =
     (if looksLikeDir a \<and> \<not> looksLikeDir b then - 1
      else if \<not> looksLikeDir a \<and> looksLikeDir b then 1
      else localeCompare coll a b)"

text \<open>The order of the comparator, as a key: the class first, then the collation's key.\<close>

definition fileKey :: "collation \<Rightarrow> string \<Rightarrow> bool \<times> nat list" where
  "fileKey coll a = (\<not> looksLikeDir a, coll a)"

text \<open>Lines 550 to 555.\<close>

definition formatFile :: "string list \<Rightarrow> string \<Rightarrow> string" where
  "formatFile modifiedFiles file =
     (if file \<in> set modifiedFiles then ''* '' @ file else ''  '' @ file)"

record resolution =
  committedFiles :: "string list"
  modifiedFiles :: "string list"
  changedFiles :: "string list"
  sortedFiles :: "string list"
  formattedFiles :: "string list"

text \<open>Lines 530 to 555. The document shown afterwards lists \<open>formattedFiles\<close> under a header;
  its text is not modelled.\<close>

definition mergeAndSort :: "collation \<Rightarrow> string list \<Rightarrow> string list \<Rightarrow> resolution" where
  "mergeAndSort coll committed modified =
     (let allChangedFiles = newSet (committed @ modified);
          changed = filter notBlank allChangedFiles;
          sorted = sortCmp (compareFiles coll) changed
      in \<lparr> committedFiles = committed, modifiedFiles = modified,
           changedFiles = changed, sortedFiles = sorted,
           formattedFiles = map (formatFile modified) sorted \<rparr>)"

section \<open>The command\<close>

text \<open>The folder chosen in the first dialogue (lines 213 to 260), with the fields the rest
  of the command reads.\<close>

record directoryItem =
  path :: string
  absolutePath :: string
  isExternal :: bool

text \<open>Lines 332 to 341: \<open>folderPath\<close> and \<open>pathForGitCommands\<close> are the same string.\<close>

definition folderPathOf :: "directoryItem \<Rightarrow> string" where
  "folderPathOf selectedDirectory =
     (if isExternal selectedDirectory then []
      else if path selectedDirectory = ''.'' then [] else path selectedDirectory)"

text \<open>Lines 322 to 555, for the label of the branch chosen and the base found.\<close>

definition resolveBranchFiles ::
  "sys \<Rightarrow> collation \<Rightarrow> string \<Rightarrow> directoryItem \<Rightarrow> string \<Rightarrow> string \<Rightarrow> string list
     \<Rightarrow> resolution \<times> string list" where
  "resolveBranchFiles sys coll repoPath selectedDirectory label baseRef log =
     (let branchName = cleanRemotes label;
          folderPath = folderPathOf selectedDirectory
      in case resolveCommitted sys repoPath branchName baseRef folderPath folderPath log of
           (committed, log1) \<Rightarrow>
             (case scanModified sys repoPath branchName folderPath folderPath log1 of
                (modified, log2) \<Rightarrow> (mergeAndSort coll committed modified, log2)))"

datatype outcome =
    ShowErrorMessage string
  | Cancelled
  | ShowDocument resolution

definition notGitMessage :: string where
  "notGitMessage =
     ''The selected folder doesn't appear to be a Git repository. Please select a different folder.''"

definition branchItems :: "string \<Rightarrow> string list" where
  "branchItems output =
     map (\<lambda>branch. trim (replaceFirst branch ''*'' ''''))
       (filter notBlank (splitOn newline output))"

text \<open>
  Lines 262 to 593, from the folder chosen to the document. \<open>pick\<close> is the user at the
  branch dialogue: from the labels shown, the one chosen, or nothing. \<open>log\<close> holds the
  commands run before. The result is what the user sees, with the commands run. The check of
  line 270 only matters when it throws (\<open>isl\<close>) for an external folder; the probe of line
  316 gives \<open>master\<close> when it throws.
\<close>

definition branchFilesOfFolder ::
  "sys \<Rightarrow> collation \<Rightarrow> (string list \<Rightarrow> string option) \<Rightarrow> string \<Rightarrow> directoryItem
     \<Rightarrow> string list \<Rightarrow> outcome \<times> string list" where
  "branchFilesOfFolder sys coll pick workspacePath selectedDirectory log =
     (let repoPath = (if isExternal selectedDirectory then absolutePath selectedDirectory
                      else workspacePath)
      in case execSync sys workTreeCommand repoPath log of
           (checked, log1) \<Rightarrow>
             (if isl checked \<and> isExternal selectedDirectory
              then (ShowErrorMessage notGitMessage, log1)
              else
                (case execSync sys branchesCommand repoPath log1 of
                   (Inl message, log2) \<Rightarrow>
                     (ShowErrorMessage (''Failed to get Git branches: '' @ message), log2)
                 | (Inr output, log2) \<Rightarrow>
                     (case pick (branchItems output) of
                        None \<Rightarrow> (Cancelled, log2)
                      | Some label \<Rightarrow>
                          (case execSync sys showRefCommand repoPath log2 of
                             (probed, log3) \<Rightarrow>
                               (case resolveBranchFiles sys coll repoPath selectedDirectory label
                                       (if isl probed then ''master'' else ''main'') log3 of
                                  (result, log4) \<Rightarrow> (ShowDocument result, log4)))))))"

text \<open>Lines 169 to 182: the directories offered, the root first; when the listing throws,
  the root alone.\<close>

definition directoriesOf :: "string + string \<Rightarrow> string list" where
  "directoriesOf listed =
     ''.'' # (case listed of Inl e \<Rightarrow> [] | Inr output \<Rightarrow> filter notBlank (splitOn newline output))"

text \<open>
  The handler of the command, lines 158 to 610. \<open>workspaceFolders\<close> is the path of the first
  workspace folder, if one is open. The first command run is the listing of the directories
  (line 173), in the workspace folder. \<open>pickFolder\<close> is the user at the folder dialogue
  (lines 204 to 260): from the directories offered, the folder the user ends with, picked
  from the list or browsed to, with its absolute path and whether it lies outside the
  workspace; or nothing when the dialogue is dismissed.
\<close>

definition selectBranchFiles ::
  "sys \<Rightarrow> collation \<Rightarrow> (string list \<Rightarrow> directoryItem option) \<Rightarrow> (string list \<Rightarrow> string option)
     \<Rightarrow> string option \<Rightarrow> outcome \<times> string list" where
  "selectBranchFiles sys coll pickFolder pick workspaceFolders =
     (case workspaceFolders of
        None \<Rightarrow> (ShowErrorMessage ''No workspace folder is open.'', [])
      | Some workspacePath \<Rightarrow>
          (case execSyncSortUniq sys getDirectoriesCommand workspacePath [] of
             (listed, log0) \<Rightarrow>
               (case pickFolder (directoriesOf listed) of
                  None \<Rightarrow> (Cancelled, log0)
                | Some selectedDirectory \<Rightarrow>
                    branchFilesOfFolder sys coll pick workspacePath selectedDirectory log0)))"

section \<open>Example systems\<close>

text \<open>
  Systems for the examples. \<open>replay\<close> answers from a table: the entry for a command and the
  number of times it has run before is its result; a command with no entry fails.
\<close>

definition replay :: "((string \<times> nat) \<times> (string + string)) list \<Rightarrow> sys" where
  "replay table log cwd command =
     (case map_of table (command, length (filter (\<lambda>c. c = command) log)) of
        Some r \<Rightarrow> r
      | None \<Rightarrow> Inl ''fatal: the command failed'')"

text \<open>The user ending the folder dialogue with a given folder, and picking a given label
  when it is among those shown.\<close>

definition chooseFolder :: "directoryItem \<Rightarrow> string list \<Rightarrow> directoryItem option" where
  "chooseFolder selectedDirectory directories = Some selectedDirectory"


definition pickLabel :: "string \<Rightarrow> string list \<Rightarrow> string option" where
  "pickLabel label items = (if label \<in> set items then Some label else None)"

text \<open>A repository on \<open>main\<close> with a branch \<open>feature/main\<close> that adds \<open>src/new.ts\<close>, and one
  file modified in the working tree. The history of \<open>main\<close> has two commits, the second
  touching \<open>src/a.ts\<close> again: \<open>git log --name-only\<close> prints that file twice, and a blank
  line between the commits.\<close>

definition repoOnMain :: sys where
  "repoOnMain = replay
     [((getDirectoriesCommand, 0), Inr ''.\<newline>src\<newline>src\<newline>''),
      ((workTreeCommand, 0), Inr ''true\<newline>''),
      ((branchesCommand, 0), Inr ''  feature/main\<newline>* main\<newline>  remotes/origin/main\<newline>''),
      ((showRefCommand, 0), Inr ''''),
      ((allFilesCommand ''main'' '''', 0),
         Inr ''src/a.ts\<newline>\<newline>src/b.ts\<newline>src/a.ts\<newline>README\<newline>''),
      ((allFilesCommand ''feature/main'' '''', 0),
         Inr ''README\<newline>src/a.ts\<newline>src/b.ts\<newline>src/new.ts\<newline>''),
      ((mergeBaseCommand ''main'' ''feature/main'', 0), Inr ''4f2a91c\<newline>''),
      ((committedFilesCommand ''4f2a91c'' ''feature/main'' '''', 0), Inr ''src/new.ts\<newline>''),
      ((currentBranchCommand, 0), Inr ''main\<newline>''),
      ((statusCommand, 0), Inr '' M src/a.ts\<newline>''),
      ((modifiedFilesCommand '''', 0), Inr ''src/a.ts\<newline>'')]"

text \<open>A repository on \<open>feature/x\<close>, a branch that changes \<open>src/a.ts\<close>; the file is modified
  again in the working tree.\<close>

definition repoOnFeature :: sys where
  "repoOnFeature = replay
     [((getDirectoriesCommand, 0), Inr ''src\<newline>''),
      ((workTreeCommand, 0), Inr ''true\<newline>''),
      ((branchesCommand, 0), Inr ''* feature/x\<newline>  main\<newline>''),
      ((showRefCommand, 0), Inr ''''),
      ((mergeBaseCommand ''main'' ''feature/x'', 0), Inr ''4f2a91c\<newline>''),
      ((committedFilesCommand ''4f2a91c'' ''feature/x'' '''', 0), Inr ''src/a.ts\<newline>''),
      ((currentBranchCommand, 0), Inr ''feature/x\<newline>''),
      ((statusCommand, 0), Inr '' M src/a.ts\<newline>''),
      ((modifiedFilesCommand '''', 0), Inr ''src/a.ts\<newline>'')]"

text \<open>A bare repository: the check of the working tree succeeds and prints \<open>false\<close>; the
  listing of the directories prints nothing, and the status command needs a working tree
  and fails.\<close>

definition repoBare :: sys where
  "repoBare = replay
     [((getDirectoriesCommand, 0), Inr ''''),
      ((workTreeCommand, 0), Inr ''false\<newline>''),
      ((branchesCommand, 0), Inr ''* main\<newline>''),
      ((showRefCommand, 0), Inr ''''),
      ((allFilesCommand ''main'' '''', 0), Inr ''README\<newline>src/a.ts\<newline>''),
      ((currentBranchCommand, 0), Inr ''main\<newline>'')]"

text \<open>Every command of the three tiers fails, the status command at its first run too; the
  commands of the scan succeed.\<close>

definition repoFlaky :: sys where
  "repoFlaky = replay
     [((currentBranchCommand, 0), Inr ''main\<newline>''),
      ((statusCommand, 1), Inr '' M src/a.ts\<newline>?? notes.txt\<newline>''),
      ((modifiedFilesCommand '''', 0), Inr ''src/a.ts\<newline>'')]"

text \<open>Only the status command succeeds.\<close>

definition repoStatusOnly :: sys where
  "repoStatusOnly = replay
     [((statusCommand, 0), Inr '' M src/a.ts\<newline> M docs/b.md\<newline>'')]"

definition wholeRepository :: directoryItem where
  "wholeRepository = \<lparr>path = ''.'', absolutePath = ''/repo'', isExternal = False\<rparr>"

definition externalFolder :: directoryItem where
  "externalFolder = \<lparr>path = ''../other'', absolutePath = ''/other'', isExternal = True\<rparr>"

section \<open>Facts about the string primitives\<close>

lemma startsWith_length: "startsWith s p \<Longrightarrow> length p \<le> length s"
proof -
  assume "startsWith s p"
  then have "length (take (length p) s) = length p" by (simp add: startsWith_def)
  then show ?thesis by simp
qed

lemma replaceFirst_length:
  "includesStr s p \<Longrightarrow> length (replaceFirst s p r) + length p = length s + length r"
proof (induction s)
  case Nil
  then show ?case by simp
next
  case (Cons c cs)
  show ?case
  proof (cases "startsWith (c # cs) p")
    case True
    from startsWith_length[OF True] show ?thesis using True by simp
  next
    case False
    with Cons show ?thesis by simp
  qed
qed

lemma cleanRemotes_fixed: "(cleanRemotes t = t) = (\<not> includesStr t ''remotes/'')"
proof (cases "includesStr t ''remotes/''")
  case True
  from replaceFirst_length[OF True, of "''''"]
  have "length (replaceFirst t ''remotes/'' '''') \<noteq> length t" by simp
  then have "replaceFirst t ''remotes/'' '''' \<noteq> t" by auto
  with True show ?thesis by (simp add: cleanRemotes_def)
next
  case False
  then show ?thesis by (simp add: cleanRemotes_def)
qed

lemma refPrefix_pos: "refPrefix t = Some n \<Longrightarrow> 0 < n \<and> t \<noteq> []"
  by (auto simp: refPrefix_def Let_def startsWith_def split: if_splits)

lemma normalizeRef_fixed: "(normalizeRef t = t) = (refPrefix t = None)"
proof (cases "refPrefix t")
  case None
  then show ?thesis by (simp add: normalizeRef_def)
next
  case (Some n)
  from refPrefix_pos[OF Some] have "length (drop n t) < length t" by (cases t) auto
  then have "drop n t \<noteq> t" by (metis less_irrefl)
  with Some show ?thesis by (simp add: normalizeRef_def)
qed

section \<open>Facts about sets and sorting\<close>

lemma foldl_newSet_step:
  "distinct acc \<Longrightarrow>
     distinct (foldl (\<lambda>acc x. if x \<in> set acc then acc else acc @ [x]) acc xs)
     \<and> set (foldl (\<lambda>acc x. if x \<in> set acc then acc else acc @ [x]) acc xs) = set acc \<union> set xs"
  by (induction xs arbitrary: acc) auto

lemma distinct_newSet: "distinct (newSet xs)"
  using foldl_newSet_step[of "[]" xs] by (simp add: newSet_def)

lemma set_newSet: "set (newSet xs) = set xs"
  using foldl_newSet_step[of "[]" xs] by (simp add: newSet_def)

lemma foldl_newSet_distinct:
  "distinct (acc @ xs) \<Longrightarrow>
     foldl (\<lambda>acc x. if x \<in> set acc then acc else acc @ [x]) acc xs = acc @ xs"
  by (induction xs arbitrary: acc) auto

lemma newSet_distinct: "distinct xs \<Longrightarrow> newSet xs = xs"
  using foldl_newSet_distinct[of "[]" xs] by (simp add: newSet_def)

text \<open>The comparator orders paths as their keys are ordered, so sorting with it is the
  library's stable sort by key.\<close>

lemma compareFiles_le: "(compareFiles coll a b \<le> 0) = (fileKey coll a \<le> fileKey coll b)"
  by (auto simp: compareFiles_def fileKey_def localeCompare_def less_eq_prod_def)

lemma insortCmp_key: "insortCmp (compareFiles coll) x ys = insort_key (fileKey coll) x ys"
  by (induction ys) (simp_all add: compareFiles_le)

lemma sortCmp_key: "sortCmp (compareFiles coll) xs = sort_key (fileKey coll) xs"
proof -
  have "insortCmp (compareFiles coll) = insort_key (fileKey coll)"
    by (intro ext) (rule insortCmp_key)
  then show ?thesis by (simp add: sortCmp_def sort_key_def)
qed

lemma sorted_sortCmp:
  "sorted_wrt (\<lambda>a b. compareFiles coll a b \<le> 0) (sortCmp (compareFiles coll) xs)"
proof -
  have "sorted (map (fileKey coll) (sort_key (fileKey coll) xs))" by (rule sorted_sort_key)
  then show ?thesis by (simp add: sortCmp_key sorted_map compareFiles_le)
qed

lemma compareFiles_zero:
  "(compareFiles coll a b = 0) = (looksLikeDir a = looksLikeDir b \<and> coll a = coll b)"
  by (auto simp: compareFiles_def localeCompare_def)

lemma compareFiles_flip: "compareFiles coll b a = - compareFiles coll a b"
  by (auto simp: compareFiles_def localeCompare_def)

lemma compareFiles_trans:
  "compareFiles coll a b \<le> 0 \<Longrightarrow> compareFiles coll b c \<le> 0 \<Longrightarrow> compareFiles coll a c \<le> 0"
  unfolding compareFiles_le by (rule order_trans)

lemma filter_eq_distinct: "distinct s \<Longrightarrow> f \<in> set s \<Longrightarrow> filter (\<lambda>x. x = f) s = [f]"
  by (induction s) (auto simp: filter_empty_conv)

section \<open>Facts about merging\<close>

lemma drop_formatFile: "drop 2 (formatFile m x) = x"
  by (simp add: formatFile_def)

lemma sortedFiles_eq:
  "sortedFiles (mergeAndSort coll committed modified)
     = sortCmp (compareFiles coll) (filter notBlank (newSet (committed @ modified)))"
  by (simp add: mergeAndSort_def Let_def)

lemma formattedFiles_eq:
  "formattedFiles (mergeAndSort coll committed modified)
     = map (formatFile modified) (sortedFiles (mergeAndSort coll committed modified))"
  by (simp add: mergeAndSort_def Let_def)

lemma set_sortedFiles:
  "set (sortedFiles (mergeAndSort coll committed modified))
     = {f \<in> set committed \<union> set modified. notBlank f}"
  by (auto simp: sortedFiles_eq sortCmp_key set_newSet)

lemma distinct_sortedFiles: "distinct (sortedFiles (mergeAndSort coll committed modified))"
  by (simp add: sortedFiles_eq sortCmp_key distinct_newSet)

lemma merge_modified_only:
  assumes "distinct modified"
  shows "mergeAndSort coll [] modified =
     \<lparr> committedFiles = [], modifiedFiles = modified,
       changedFiles = filter notBlank modified,
       sortedFiles = sortCmp (compareFiles coll) (filter notBlank modified),
       formattedFiles = map (\<lambda>file. ''* '' @ file)
         (sortCmp (compareFiles coll) (filter notBlank modified)) \<rparr>"
proof -
  have "formatFile modified f = ''* '' @ f"
    if "f \<in> set (sortCmp (compareFiles coll) (filter notBlank modified))" for f
    using that by (simp add: sortCmp_key formatFile_def)
  then have "map (formatFile modified) (sortCmp (compareFiles coll) (filter notBlank modified))
      = map (\<lambda>file. ''* '' @ file) (sortCmp (compareFiles coll) (filter notBlank modified))"
    by (intro map_cong) simp_all
  with assms show ?thesis
    by (simp add: mergeAndSort_def Let_def newSet_distinct)
qed

section \<open>Facts about sort and uniq\<close>

lemma splitOn_not_Nil: "splitOn d s \<noteq> []"
  by (induction s) (auto split: list.splits)

lemma splitOn_no_separator: "l \<in> set (splitOn d s) \<Longrightarrow> d \<notin> set l"
proof (induction s arbitrary: l)
  case Nil
  then show ?case by simp
next
  case (Cons c cs)
  show ?case
  proof (cases "c = d")
    case True
    with Cons show ?thesis by auto
  next
    case False
    obtain r rs where s: "splitOn d cs = r # rs"
      using splitOn_not_Nil[of d cs] by (cases "splitOn d cs") auto
    with Cons.prems False have "l = c # r \<or> l \<in> set rs" by simp
    then show ?thesis
    proof
      assume "l = c # r"
      moreover have "d \<notin> set r" using Cons.IH[of r] s by simp
      ultimately show ?thesis using False by simp
    next
      assume "l \<in> set rs"
      then show ?thesis using Cons.IH[of l] s by simp
    qed
  qed
qed

lemma splitOn_line: "d \<notin> set l \<Longrightarrow> splitOn d (l @ d # rest) = l # splitOn d rest"
  by (induction l) (auto split: list.splits)

lemma splitOn_printed:
  "\<forall>l \<in> set ls. d \<notin> set l \<Longrightarrow> splitOn d (concat (map (\<lambda>line. line @ [d]) ls)) = ls @ [[]]"
  by (induction ls) (simp_all add: splitOn_line)

lemma sorted_distinct_adj: "sorted xs \<Longrightarrow> distinct_adj xs \<Longrightarrow> distinct (xs :: 'a :: linorder list)"
proof (induction xs)
  case Nil
  then show ?case by simp
next
  case (Cons x xs)
  show ?case
  proof (cases xs)
    case Nil
    then show ?thesis by simp
  next
    case (Cons y ys)
    with Cons.prems have "x < y" and "\<forall>z \<in> set xs. y \<le> z" by auto
    then have "x \<notin> set xs" by auto
    with Cons.IH Cons.prems Cons show ?thesis by simp
  qed
qed

lemma textLines_subset: "set (textLines text) \<subseteq> set (splitOn newline text)"
  by (auto simp: textLines_def Let_def dest: in_set_butlastD)

lemma textLines_all_but_empty: "set (splitOn newline text) \<subseteq> insert [] (set (textLines text))"
proof -
  let ?ps = "splitOn newline text"
  have "?ps = butlast ?ps @ [last ?ps]" using splitOn_not_Nil by simp
  then have "set ?ps = insert (last ?ps) (set (butlast ?ps))"
    by (metis Un_insert_right append_Nil2 list.simps(15) set_append)
  then show ?thesis by (auto simp: textLines_def Let_def)
qed

lemma not_notBlank_Nil: "\<not> notBlank []"
  by (simp add: notBlank_def trim_def)

text \<open>What comes out of \<open>sort | uniq\<close>, split at the newlines as line 361 does: the lines that
  went in, each once, and one empty piece after the last newline.\<close>

lemma splitOn_sortUniq:
  "splitOn newline (sortUniq text) = remdups_adj (sort (textLines text)) @ [[]]"
proof -
  have "\<forall>l \<in> set (remdups_adj (sort (textLines text))). newline \<notin> set l"
    using textLines_subset splitOn_no_separator by fastforce
  then show ?thesis unfolding sortUniq_def by (rule splitOn_printed)
qed

lemma sortUniq_files:
  "distinct (filter notBlank (splitOn newline (sortUniq out)))
   \<and> set (filter notBlank (splitOn newline (sortUniq out)))
       = {f \<in> set (splitOn newline out). notBlank f}"
proof -
  have d: "distinct (remdups_adj (sort (textLines out)))"
    by (rule sorted_distinct_adj) simp_all
  have "set (filter notBlank (remdups_adj (sort (textLines out))))
      = {f \<in> set (splitOn newline out). notBlank f}"
    using textLines_subset[of out] textLines_all_but_empty[of out] not_notBlank_Nil by auto
  with d show ?thesis by (simp add: splitOn_sortUniq not_notBlank_Nil)
qed

section \<open>Facts about the tiers and the scan\<close>

lemma underFolder_filter: "underFolder folderPath files = filter (\<lambda>file. startsWith file folderPath) files"
  by (simp add: underFolder_def startsWith_def)

lemma tiers_fail:
  assumes "primaryTier sys repoPath branch baseRef pathForGitCommands log = (Inl e1, log1)"
    and "fallbackTier sys repoPath branch baseRef pathForGitCommands log1 = (Inl e2, log2)"
  shows "resolveCommitted sys repoPath branch baseRef folderPath pathForGitCommands log
     = (case sys log2 repoPath statusCommand of
          Inl statusError \<Rightarrow> []
        | Inr out \<Rightarrow> filter (\<lambda>file. startsWith file folderPath) (statusFiles out),
        log2 @ [statusCommand])"
  using assms
  by (simp add: resolveCommitted_def statusTier_def execSync_def underFolder_filter split: sum.splits)

text \<open>For a name the test of line 347 rejects, the first tier is the diff from the merge
  base: its lines, blank ones included (they are dropped when the lists are merged).\<close>

lemma differing_branch_diff:
  assumes "\<not> isSameBranch branch baseRef"
    and "sys log repoPath (mergeBaseCommand baseRef branch) = Inr mb"
    and "sys (log @ [mergeBaseCommand baseRef branch]) repoPath
           (committedFilesCommand (trim mb) branch pathForGitCommands) = Inr out"
  shows "resolveCommitted sys repoPath branch baseRef folderPath pathForGitCommands log
     = (splitOn newline out,
        log @ [mergeBaseCommand baseRef branch,
               committedFilesCommand (trim mb) branch pathForGitCommands])"
  using assms by (simp add: resolveCommitted_def primaryTier_def execSync_def)

text \<open>A name whose normalised form is the base passes the test of line 347.\<close>

lemma refPrefix_slash:
  "refPrefix b = Some n \<Longrightarrow> 0 < n \<and> n \<le> length b \<and> b ! (n - 1) = CHR ''/''"
proof -
  assume a: "refPrefix b = Some n"
  show ?thesis
  proof (cases "startsWith b ''refs/heads/''")
    case True
    then have t: "take 11 b = ''refs/heads/''" by (simp add: startsWith_def eval_nat_numeral)
    from startsWith_length[OF True] have l: "11 \<le> length b" by simp
    have "b ! 10 = take 11 b ! 10" by simp
    also have "\<dots> = CHR ''/''" by (simp add: t)
    finally show ?thesis using a True l by (simp add: refPrefix_def)
  next
    case False
    define k where "k = 13 + length (takeWhile isWordChar (drop 13 b))"
    from a False have s: "startsWith (drop k b) ''/''" and n: "n = k + 1"
      by (auto simp: refPrefix_def Let_def k_def split: if_splits)
    from s have t: "take 1 (drop k b) = ''/''" by (simp add: startsWith_def)
    then have ne: "drop k b \<noteq> []" by auto
    then have l: "k < length b" by simp
    from t ne have "hd (drop k b) = CHR ''/''" by (cases "drop k b") auto
    with l have "b ! k = CHR ''/''" by (simp add: hd_drop_conv_nth)
    with l n show ?thesis by simp
  qed
qed

lemma normalized_base_same: "normalizeRef b = baseRef \<Longrightarrow> isSameBranch b baseRef"
proof (cases "refPrefix b")
  case None
  assume "normalizeRef b = baseRef"
  with None show ?thesis by (simp add: normalizeRef_def isSameBranch_def)
next
  case (Some n)
  assume "normalizeRef b = baseRef"
  with Some have d: "drop n b = baseRef" by (simp add: normalizeRef_def)
  from refPrefix_slash[OF Some] have n: "0 < n" "n \<le> length b" "b ! (n - 1) = CHR ''/''"
    by auto
  then have "drop (n - 1) b = b ! (n - 1) # drop (Suc (n - 1)) b"
    by (intro Cons_nth_drop_Suc[symmetric]) simp
  with n d have e: "drop (n - 1) b = ''/'' @ baseRef" by simp
  from d have "length baseRef = length b - n" by auto
  with n(2) have lb: "length baseRef + n = length b" by simp
  have le: "length (''/'' @ baseRef) \<le> length b" using lb n(1) by simp
  have df: "length b - length (''/'' @ baseRef) = n - 1" using lb n(1) by simp
  have "endsWith b (''/'' @ baseRef)"
    unfolding endsWith_def
  proof (intro conjI)
    show "length (''/'' @ baseRef) \<le> length b" by (rule le)
    show "drop (length b - length (''/'' @ baseRef)) b = ''/'' @ baseRef"
      by (simp only: df e)
  qed
  then show ?thesis by (simp add: isSameBranch_def)
qed

text \<open>The scan, by the code's own tests (lines 490 to 495).\<close>

lemma scan_ineligible:
  assumes "sys log repoPath currentBranchCommand = Inr cur"
    and "\<not> (isOnSelectedBranch (trim cur) b \<and> \<not> isRemoteBranch b)"
  shows "scanModified sys repoPath b folderPath pf log = ([], log @ [currentBranchCommand])"
  using assms by (auto simp: scanModified_def execSync_def)

lemma scan_remote: "isRemoteBranch b \<Longrightarrow> fst (scanModified sys repoPath b folderPath pf log) = []"
  by (simp add: scanModified_def execSync_def split: sum.splits)

lemma scan_eligible:
  assumes "sys log repoPath currentBranchCommand = Inr cur"
    and "isOnSelectedBranch (trim cur) b" and "\<not> isRemoteBranch b"
    and "sys (log @ [currentBranchCommand]) repoPath statusCommand = Inr st"
    and "sys (log @ [currentBranchCommand, statusCommand]) repoPath (modifiedFilesCommand pf) = Inr ls"
  shows "scanModified sys repoPath b folderPath pf log
    = (newSet (underFolder folderPath (statusFiles st) @ filter notBlank (splitOn newline ls)),
       log @ [currentBranchCommand, statusCommand, modifiedFilesCommand pf])"
  using assms by (simp add: scanModified_def execSync_def Let_def)

text \<open>Every part of the command only adds to the commands run.\<close>

lemma primaryTier_log: "\<exists>ext. snd (primaryTier sys repoPath b baseRef pf log) = log @ ext"
  by (auto simp: primaryTier_def execSync_def execSyncSortUniq_def split: sum.splits)

lemma fallbackTier_log: "snd (fallbackTier sys repoPath b baseRef pf log) = log @ [if isSameBranch b baseRef then recentFilesCommand pf else fallbackCommand baseRef b pf]"
  by (auto simp: fallbackTier_def execSync_def isSameBranch_def split: sum.splits)

lemma statusTier_log: "snd (statusTier sys repoPath folderPath log) = log @ [statusCommand]"
  by (auto simp: statusTier_def execSync_def split: sum.splits)

lemma resolveCommitted_log:
  "\<exists>ext. snd (resolveCommitted sys repoPath b baseRef folderPath pf log) = log @ ext"
proof -
  obtain r1 l1 where p: "primaryTier sys repoPath b baseRef pf log = (r1, l1)" by force
  with primaryTier_log[of sys repoPath b baseRef pf log] obtain e1 where l1: "l1 = log @ e1" by auto
  obtain r2 l2 where f: "fallbackTier sys repoPath b baseRef pf l1 = (r2, l2)" by force
  with fallbackTier_log[of sys repoPath b baseRef pf l1] obtain e2 where l2: "l2 = l1 @ e2" by auto
  obtain r3 l3 where s: "statusTier sys repoPath folderPath l2 = (r3, l3)" by force
  with statusTier_log[of sys repoPath folderPath l2] have l3: "l3 = l2 @ [statusCommand]" by auto
  show ?thesis
    using p f s l1 l2 l3 by (auto simp: resolveCommitted_def split: sum.splits)
qed

lemma scanModified_log:
  "\<exists>ext. snd (scanModified sys repoPath b folderPath pf log) = log @ ext"
  by (auto simp: scanModified_def execSync_def Let_def split: sum.splits)

lemma resolveBranchFiles_log:
  "\<exists>ext. snd (resolveBranchFiles sys coll repoPath d label baseRef log) = log @ ext"
proof -
  let ?b = "cleanRemotes label" and ?f = "folderPathOf d"
  obtain c l1 where rc: "resolveCommitted sys repoPath ?b baseRef ?f ?f log = (c, l1)" by force
  with resolveCommitted_log[of sys repoPath ?b baseRef ?f ?f log]
  obtain e1 where l1: "l1 = log @ e1" by auto
  obtain m l2 where sm: "scanModified sys repoPath ?b ?f ?f l1 = (m, l2)" by force
  with scanModified_log[of sys repoPath ?b ?f ?f l1] obtain e2 where l2: "l2 = l1 @ e2" by auto
  show ?thesis using rc sm l1 l2 by (simp add: resolveBranchFiles_def Let_def)
qed

lemma resolveBranchFiles_after:
  "resolveBranchFiles sys coll repoPath d label baseRef (log @ c # cs) = (r, log')
     \<Longrightarrow> \<exists>rest. log' = log @ c # rest"
  using resolveBranchFiles_log[of sys coll repoPath d label baseRef "log @ c # cs"] by auto

lemma branchFilesOfFolder_first:
  "\<exists>rest. snd (branchFilesOfFolder sys coll pick workspacePath d log) = log @ workTreeCommand # rest"
  by (cases "isExternal d")
    (auto simp: branchFilesOfFolder_def execSync_def Let_def
      split: sum.splits option.splits prod.splits dest: resolveBranchFiles_after)

text \<open>Once a folder is chosen, the handler is the listing of the directories and then lines
  262 to 593.\<close>

lemma selectBranchFiles_folder:
  assumes "pickFolder (directoriesOf (fst (execSyncSortUniq sys getDirectoriesCommand workspacePath [])))
             = Some d"
  shows "selectBranchFiles sys coll pickFolder pick (Some workspacePath)
     = branchFilesOfFolder sys coll pick workspacePath d [getDirectoriesCommand]"
  using assms by (simp add: selectBranchFiles_def execSyncSortUniq_def split: sum.splits)

section \<open>The claims\<close>

subsection \<open>The committed files\<close>

text \<open>
  C1. For every branch name that the test of line 347 takes for the base (the base itself,
  or a name ending in a slash and the base, as \<open>origin/main\<close> or \<open>refs/heads/main\<close>; by
  \<open>normalized_base_same\<close> every name whose normalised form is the base), the resolver runs
  the history scan \<open>git log --name-only\<close> of that branch, under the path filter when there
  is one, through \<open>sort | uniq\<close>, and no other command: no diff. When that command line
  succeeds, \<open>out\<close> being what the history scan prints, the committed files are the lines of
  \<open>out\<close> that are not blank, the files touched by the commits reachable from the branch, and
  each of them once.
\<close>

theorem same_branch_history_scan:
  assumes \<open>isSameBranch b baseRef\<close>
    and \<open>sys log repoPath
           (''git log --name-only --format="" '' @ b
              @ (if pf \<noteq> [] then '' -- "'' @ pf @ ''"'' else []) @ '' | sort | uniq'') = Inr out\<close>
  shows \<open>resolveCommitted sys repoPath b baseRef folderPath pf log
      = (filter notBlank (splitOn newline (sortUniq out)),
         log @ [''git log --name-only --format="" '' @ b
                  @ (if pf \<noteq> [] then '' -- "'' @ pf @ ''"'' else []) @ '' | sort | uniq''])
    \<and> distinct (filter notBlank (splitOn newline (sortUniq out)))
    \<and> set (filter notBlank (splitOn newline (sortUniq out)))
        = {f \<in> set (splitOn newline out). notBlank f}\<close>
proof -
  have c: \<open>allFilesCommand b pf
      = ''git log --name-only --format="" '' @ b
          @ (if pf \<noteq> [] then '' -- "'' @ pf @ ''"'' else []) @ '' | sort | uniq''\<close>
    by (simp add: allFilesCommand_def pathFilter_def)
  have \<open>resolveCommitted sys repoPath b baseRef folderPath pf log
      = (filter notBlank (splitOn newline (sortUniq out)), log @ [allFilesCommand b pf])\<close>
    using assms unfolding c[symmetric]
    by (simp add: resolveCommitted_def primaryTier_def execSyncSortUniq_def)
  then show ?thesis unfolding c using sortUniq_files[of out] by simp
qed

text \<open>Choosing \<open>main\<close> when the base is \<open>main\<close>: the history scan prints \<open>src/a.ts\<close> twice
  and a blank line; the committed files are the three files of the history, each once.\<close>

theorem same_branch_history_scan_witness:
  \<open>resolveCommitted repoOnMain ''/repo'' ''main'' ''main'' [] [] []
     = ([''README'', ''src/a.ts'', ''src/b.ts''],
        [''git log --name-only --format="" main | sort | uniq''])\<close>
proof -
  have h1: \<open>isSameBranch ''main'' ''main''\<close> by code_simp
  have h2: \<open>repoOnMain [] ''/repo''
       (''git log --name-only --format="" '' @ ''main''
          @ (if ([] :: string) \<noteq> [] then '' -- "'' @ [] @ ''"'' else []) @ '' | sort | uniq'')
     = Inr ''src/a.ts\<newline>\<newline>src/b.ts\<newline>src/a.ts\<newline>README\<newline>''\<close>
    by code_simp
  have k: \<open>filter notBlank (splitOn newline
        (sortUniq ''src/a.ts\<newline>\<newline>src/b.ts\<newline>src/a.ts\<newline>README\<newline>''))
     = [''README'', ''src/a.ts'', ''src/b.ts'']\<close>
    \<open>[] @ [''git log --name-only --format="" '' @ ''main''
          @ (if ([] :: string) \<noteq> [] then '' -- "'' @ [] @ ''"'' else []) @ '' | sort | uniq'']
     = [''git log --name-only --format="" main | sort | uniq'']\<close>
    by code_simp+
  from same_branch_history_scan[where sys = repoOnMain and log = "[]" and repoPath = "''/repo''"
      and b = "''main''" and pf = "[]" and folderPath = "[]" and baseRef = "''main''", OF h1 h2]
  have \<open>resolveCommitted repoOnMain ''/repo'' ''main'' ''main'' [] [] []
      = (filter notBlank (splitOn newline
           (sortUniq ''src/a.ts\<newline>\<newline>src/b.ts\<newline>src/a.ts\<newline>README\<newline>'')),
         [] @ [''git log --name-only --format="" '' @ ''main''
          @ (if ([] :: string) \<noteq> [] then '' -- "'' @ [] @ ''"'' else []) @ '' | sort | uniq''])\<close>
    by (rule conjunct1)
  then show ?thesis by (simp only: k)
qed

text \<open>
  C2, at the branch \<open>feature/main\<close> with base \<open>main\<close>. The name is no form of the base: its
  normalised form is \<open>feature/main\<close>. Since it ends in \<open>/main\<close> the test of line 347 takes it
  for the base all the same, and the committed files are the whole history of the branch,
  four files, where the diff from the merge base has one, \<open>src/new.ts\<close>.
\<close>

theorem slash_base_branch_history_scan:
  "normalizeRef (cleanRemotes ''feature/main'') = ''feature/main''
   \<and> resolveCommitted repoOnMain ''/repo'' (cleanRemotes ''feature/main'') ''main'' '''' '''' []
     = ([''README'', ''src/a.ts'', ''src/b.ts'', ''src/new.ts''],
        [allFilesCommand ''feature/main'' ''''])
   \<and> repoOnMain [] ''/repo'' (mergeBaseCommand ''main'' ''feature/main'') = Inr ''4f2a91c\<newline>''
   \<and> repoOnMain [mergeBaseCommand ''main'' ''feature/main''] ''/repo''
        (committedFilesCommand (trim ''4f2a91c\<newline>'') ''feature/main'' '''') = Inr ''src/new.ts\<newline>''"
  by code_simp

text \<open>
  C4. When the first two tiers fail, the third never throws: the committed files are empty
  when the status command fails, and otherwise the paths of the status lines that start
  with the folder path, as strings (all of them when there is no folder).
\<close>

theorem status_fallback_never_throws:
  assumes "primaryTier sys repoPath b baseRef pf log = (Inl e1, log1)"
    and "fallbackTier sys repoPath b baseRef pf log1 = (Inl e2, log2)"
  shows "resolveCommitted sys repoPath b baseRef folderPath pf log
     = (case sys log2 repoPath statusCommand of
          Inl statusError \<Rightarrow> []
        | Inr out \<Rightarrow> filter (\<lambda>file. startsWith file folderPath) (statusFiles out),
        log2 @ [statusCommand])"
  using assms
  by (simp add: resolveCommitted_def statusTier_def execSync_def underFolder_filter split: sum.splits)

text \<open>All three tiers failing, and the status command answering for the folder \<open>src\<close>.\<close>

theorem status_fallback_never_throws_witness:
  "fst (resolveCommitted repoFlaky ''/repo'' ''main'' ''main'' '''' '''' []) = []
   \<and> fst (resolveCommitted repoStatusOnly ''/repo'' ''feature/x'' ''main'' ''src'' ''src'' [])
       = [''src/a.ts'']"
proof -
  have a1: "primaryTier repoFlaky ''/repo'' ''main'' ''main'' '''' []
      = (Inl ''fatal: the command failed'', [allFilesCommand ''main'' ''''])"
    by code_simp
  have a2: "fallbackTier repoFlaky ''/repo'' ''main'' ''main'' '''' [allFilesCommand ''main'' '''']
      = (Inl ''fatal: the command failed'', [allFilesCommand ''main'' '''', recentFilesCommand ''''])"
    by code_simp
  have a3: "repoFlaky [allFilesCommand ''main'' '''', recentFilesCommand ''''] ''/repo'' statusCommand
      = Inl ''fatal: the command failed''"
    by code_simp
  have b1: "primaryTier repoStatusOnly ''/repo'' ''feature/x'' ''main'' ''src'' []
      = (Inl ''fatal: the command failed'', [mergeBaseCommand ''main'' ''feature/x''])"
    by code_simp
  have b2: "fallbackTier repoStatusOnly ''/repo'' ''feature/x'' ''main'' ''src''
        [mergeBaseCommand ''main'' ''feature/x'']
      = (Inl ''fatal: the command failed'',
         [mergeBaseCommand ''main'' ''feature/x'', fallbackCommand ''main'' ''feature/x'' ''src''])"
    by code_simp
  have b3: "repoStatusOnly [mergeBaseCommand ''main'' ''feature/x'', fallbackCommand ''main'' ''feature/x'' ''src'']
        ''/repo'' statusCommand = Inr '' M src/a.ts\<newline> M docs/b.md\<newline>''"
    by code_simp
  have b4: "filter (\<lambda>file. startsWith file ''src'') (statusFiles '' M src/a.ts\<newline> M docs/b.md\<newline>'')
      = [''src/a.ts'']"
    by code_simp
  from status_fallback_never_throws[OF a1 a2, of "''''"] a3
  have a: "fst (resolveCommitted repoFlaky ''/repo'' ''main'' ''main'' '''' '''' []) = []"
    by simp
  from status_fallback_never_throws[OF b1 b2, of "''src''"] b3 b4
  have b: "fst (resolveCommitted repoStatusOnly ''/repo'' ''feature/x'' ''main'' ''src'' ''src'' [])
       = [''src/a.ts'']"
    by simp
  from a b show ?thesis by simp
qed

subsection \<open>The modified files\<close>

text \<open>
  C3, at the local branch \<open>feature/x\<close>, checked out and selected. The current branch
  normalises to the selected name, and the name is that of a local branch; but it has a
  slash in it, so line 493 takes it for a remote branch and the scan is skipped: the status
  command is not run, and \<open>src/a.ts\<close>, modified in the working tree, is listed unmarked.
\<close>

theorem slash_branch_scan_skipped:
  "selectBranchFiles repoOnFeature baseLetters (chooseFolder wholeRepository)
       (pickLabel ''feature/x'') (Some ''/repo'')
     = (ShowDocument
          \<lparr> committedFiles = [''src/a.ts'', ''''], modifiedFiles = [],
            changedFiles = [''src/a.ts''], sortedFiles = [''src/a.ts''],
            formattedFiles = [''  src/a.ts''] \<rparr>,
        [getDirectoriesCommand, workTreeCommand, branchesCommand, showRefCommand,
         mergeBaseCommand ''main'' ''feature/x'',
         committedFilesCommand ''4f2a91c'' ''feature/x'' '''', currentBranchCommand])
   \<and> repoOnFeature [getDirectoriesCommand, workTreeCommand, branchesCommand, showRefCommand,
         mergeBaseCommand ''main'' ''feature/x'', committedFilesCommand ''4f2a91c'' ''feature/x'' '''']
        ''/repo'' currentBranchCommand = Inr ''feature/x\<newline>''
   \<and> isOnSelectedBranch (trim ''feature/x\<newline>'') (cleanRemotes ''feature/x'')
   \<and> cleanRemotes ''feature/x'' = ''feature/x''
   \<and> statusFiles '' M src/a.ts\<newline>'' = [''src/a.ts'']"
  by code_simp

text \<open>
  C10. When all three tiers fail, and the scan is eligible and its commands succeed, the
  result is the scanned files that are not blank, sorted, each marked with the asterisk.
\<close>

theorem modified_survive_failed_tiers:
  assumes "b = cleanRemotes label" and "fp = folderPathOf d"
    and "primaryTier sys repoPath b baseRef fp log = (Inl e1, log1)"
    and "fallbackTier sys repoPath b baseRef fp log1 = (Inl e2, log2)"
    and "sys log2 repoPath statusCommand = Inl e3"
    and "log3 = log2 @ [statusCommand]"
    and "sys log3 repoPath currentBranchCommand = Inr cur"
    and "isOnSelectedBranch (trim cur) b" and "\<not> isRemoteBranch b"
    and "sys (log3 @ [currentBranchCommand]) repoPath statusCommand = Inr st"
    and "sys (log3 @ [currentBranchCommand, statusCommand]) repoPath (modifiedFilesCommand fp) = Inr ls"
    and "scanned = newSet (underFolder fp (statusFiles st) @ filter notBlank (splitOn newline ls))"
  shows "fst (resolveBranchFiles sys coll repoPath d label baseRef log) =
     \<lparr> committedFiles = [], modifiedFiles = scanned,
       changedFiles = filter notBlank scanned,
       sortedFiles = sortCmp (compareFiles coll) (filter notBlank scanned),
       formattedFiles = map (\<lambda>file. ''* '' @ file)
         (sortCmp (compareFiles coll) (filter notBlank scanned)) \<rparr>"
proof -
  have c: "resolveCommitted sys repoPath b baseRef fp fp log = ([], log3)"
    using tiers_fail[OF assms(3,4), of fp] assms(5,6) by simp
  have m: "scanModified sys repoPath b fp fp log3
     = (scanned, log3 @ [currentBranchCommand, statusCommand, modifiedFilesCommand fp])"
    unfolding assms(12)
    by (rule scan_eligible[where cur = cur and st = st and ls = ls]; fact)
  have "distinct scanned" using assms(12) by (simp add: distinct_newSet)
  from merge_modified_only[OF this, of coll] c m assms(1,2)
  show ?thesis by (simp add: resolveBranchFiles_def Let_def)
qed

text \<open>The status command fails in the third tier and succeeds in the scan.\<close>

theorem modified_survive_failed_tiers_witness:
  "fst (resolveBranchFiles repoFlaky baseLetters ''/repo'' wholeRepository ''main'' ''main'' []) =
     \<lparr> committedFiles = [], modifiedFiles = [''src/a.ts'', ''notes.txt''],
       changedFiles = [''src/a.ts'', ''notes.txt''],
       sortedFiles = [''notes.txt'', ''src/a.ts''],
       formattedFiles = [''* notes.txt'', ''* src/a.ts''] \<rparr>"
proof -
  have h1: "''main'' = cleanRemotes ''main''" by code_simp
  have h2: "'''' = folderPathOf wholeRepository" by code_simp
  have h3: "primaryTier repoFlaky ''/repo'' ''main'' ''main'' '''' []
      = (Inl ''fatal: the command failed'', [allFilesCommand ''main'' ''''])"
    by code_simp
  have h4: "fallbackTier repoFlaky ''/repo'' ''main'' ''main'' '''' [allFilesCommand ''main'' '''']
      = (Inl ''fatal: the command failed'', [allFilesCommand ''main'' '''', recentFilesCommand ''''])"
    by code_simp
  have h5: "repoFlaky [allFilesCommand ''main'' '''', recentFilesCommand ''''] ''/repo'' statusCommand
      = Inl ''fatal: the command failed''"
    by code_simp
  have h7: "repoFlaky ([allFilesCommand ''main'' '''', recentFilesCommand ''''] @ [statusCommand])
       ''/repo'' currentBranchCommand = Inr ''main\<newline>''"
    by code_simp
  have h8: "isOnSelectedBranch (trim ''main\<newline>'') ''main''" by code_simp
  have h9: "\<not> isRemoteBranch ''main''" by code_simp
  have h10: "repoFlaky (([allFilesCommand ''main'' '''', recentFilesCommand ''''] @ [statusCommand])
        @ [currentBranchCommand]) ''/repo'' statusCommand = Inr '' M src/a.ts\<newline>?? notes.txt\<newline>''"
    by code_simp
  have h11: "repoFlaky (([allFilesCommand ''main'' '''', recentFilesCommand ''''] @ [statusCommand])
        @ [currentBranchCommand, statusCommand]) ''/repo'' (modifiedFilesCommand '''') = Inr ''src/a.ts\<newline>''"
    by code_simp
  have s: "newSet (underFolder '''' (statusFiles '' M src/a.ts\<newline>?? notes.txt\<newline>'')
        @ filter notBlank (splitOn newline ''src/a.ts\<newline>'')) = [''src/a.ts'', ''notes.txt'']"
    by code_simp
  have k: "filter notBlank [''src/a.ts'', ''notes.txt''] = [''src/a.ts'', ''notes.txt'']"
    "sortCmp (compareFiles baseLetters) [''src/a.ts'', ''notes.txt''] = [''notes.txt'', ''src/a.ts'']"
    "map (\<lambda>f. ''* '' @ f) [''notes.txt'', ''src/a.ts''] = [''* notes.txt'', ''* src/a.ts'']"
    by code_simp+
  from modified_survive_failed_tiers[OF h1 h2 h3 h4 h5 refl h7 h8 h9 h10 h11 s[symmetric], of baseLetters]
  show ?thesis by (simp only: k)
qed

subsection \<open>Merging and sorting\<close>

text \<open>
  C5. The list shown has no path twice, whatever the two lists hold; its entries are the
  sorted paths behind a mark of two characters; and a path that is not blank and is in both
  lists has one entry, marked with the asterisk.
\<close>

theorem merged_no_duplicates:
  assumes "r = mergeAndSort coll committed modified"
  shows "distinct (sortedFiles r) \<and> map (drop 2) (formattedFiles r) = sortedFiles r
    \<and> distinct (formattedFiles r)
    \<and> (f \<in> set committed \<and> f \<in> set modified \<and> notBlank f \<longrightarrow>
         filter (\<lambda>e. drop 2 e = f) (formattedFiles r) = [''* '' @ f])"
proof -
  let ?s = "sortedFiles r"
  have d: "distinct ?s" using assms by (simp add: distinct_sortedFiles)
  have fm: "formattedFiles r = map (formatFile modified) ?s"
    using assms by (simp add: formattedFiles_eq)
  have paths: "map (drop 2) (formattedFiles r) = ?s"
    by (simp add: fm drop_formatFile comp_def)
  have df: "distinct (formattedFiles r)"
    using d paths by (metis distinct_map)
  have one: "filter (\<lambda>e. drop 2 e = f) (formattedFiles r) = [''* '' @ f]"
    if "f \<in> set committed" "f \<in> set modified" "notBlank f"
  proof -
    from that assms have "f \<in> set ?s" by (simp add: set_sortedFiles)
    with d have "filter (\<lambda>x. x = f) ?s = [f]" by (rule filter_eq_distinct)
    then have "filter (\<lambda>e. drop 2 e = f) (formattedFiles r) = [formatFile modified f]"
      by (simp add: fm filter_map comp_def drop_formatFile)
    with that show ?thesis by (simp add: formatFile_def)
  qed
  from d paths df one show ?thesis by blast
qed

text \<open>A file committed on the branch and modified in the working tree.\<close>

theorem merged_no_duplicates_witness:
  "formattedFiles (mergeAndSort baseLetters [''src/a.ts'', ''src/b.ts''] [''src/a.ts''])
     = [''* src/a.ts'', ''  src/b.ts'']
   \<and> filter (\<lambda>e. drop 2 e = ''src/a.ts'')
        (formattedFiles (mergeAndSort baseLetters [''src/a.ts'', ''src/b.ts''] [''src/a.ts'']))
       = [''* src/a.ts'']"
proof -
  have a: "formattedFiles (mergeAndSort baseLetters [''src/a.ts'', ''src/b.ts''] [''src/a.ts''])
     = [''* src/a.ts'', ''  src/b.ts'']"
    by code_simp
  have b: "notBlank ''src/a.ts''" by code_simp
  from merged_no_duplicates[OF refl, where f = "''src/a.ts''" and coll = baseLetters
      and committed = "[''src/a.ts'', ''src/b.ts'']"
      and modified = "[''src/a.ts'']"] b
  have "filter (\<lambda>e. drop 2 e = ''src/a.ts'')
        (formattedFiles (mergeAndSort baseLetters [''src/a.ts'', ''src/b.ts''] [''src/a.ts'']))
       = [''* '' @ ''src/a.ts'']"
    by simp
  with a show ?thesis by simp
qed

text \<open>
  C6. In the sorted list no path that looks like a file stands before one that looks like
  a directory, and two paths of the same class stand in the order of the collation.
\<close>

theorem sorted_dirs_first:
  assumes "s = sortedFiles (mergeAndSort coll committed modified)"
    and "i < j" and "j < length s"
  shows "(looksLikeDir (s ! j) \<longrightarrow> looksLikeDir (s ! i))
    \<and> (looksLikeDir (s ! i) = looksLikeDir (s ! j) \<longrightarrow> localeCompare coll (s ! i) (s ! j) \<le> 0)"
proof -
  have "sorted_wrt (\<lambda>a b. compareFiles coll a b \<le> 0) s"
    using assms(1) by (simp add: sortedFiles_eq sorted_sortCmp)
  with assms(2,3) have "compareFiles coll (s ! i) (s ! j) \<le> 0"
    by (simp add: sorted_wrt_iff_nth_less)
  then show ?thesis
    by (auto simp: compareFiles_def split: if_splits)
qed

text \<open>Two paths without a dot first, then the files in the order of their letters.\<close>

theorem sorted_dirs_first_witness:
  "sortedFiles (mergeAndSort baseLetters [''src/b.ts'', ''README'', ''a.ts''] [''docs/'', ''src/a.ts''])
     = [''docs/'', ''README'', ''a.ts'', ''src/a.ts'', ''src/b.ts'']
   \<and> looksLikeDir ''README'' \<and> \<not> looksLikeDir ''a.ts''
   \<and> localeCompare baseLetters ''src/a.ts'' ''src/b.ts'' \<le> 0"
proof -
  let ?s = "sortedFiles (mergeAndSort baseLetters [''src/b.ts'', ''README'', ''a.ts''] [''docs/'', ''src/a.ts''])"
  have s: "?s = [''docs/'', ''README'', ''a.ts'', ''src/a.ts'', ''src/b.ts'']"
    by code_simp
  have c: "looksLikeDir ''README'' \<and> \<not> looksLikeDir ''a.ts'' \<and> \<not> looksLikeDir ''src/a.ts'' \<and> \<not> looksLikeDir ''src/b.ts''"
    by code_simp
  have "(3::nat) < 4" "4 < length ?s" by (simp_all add: s)
  from sorted_dirs_first[OF refl this] c
  have "localeCompare baseLetters ''src/a.ts'' ''src/b.ts'' \<le> 0" by (simp add: s)
  with s c show ?thesis by simp
qed

text \<open>
  C7, as the code has it. The comparator is a total preorder: it is zero on a path and
  itself, swapping the arguments negates it, and it is transitive. It is zero exactly on two
  paths of the same class with the same collation key, and the sort keeps the paths that
  compare equal in the order they came in.
\<close>

theorem comparator_total_stable:
  "(compareFiles coll a b = 0) = (looksLikeDir a = looksLikeDir b \<and> coll a = coll b)
   \<and> compareFiles coll a a = 0
   \<and> compareFiles coll b a = - compareFiles coll a b
   \<and> (compareFiles coll a b \<le> 0 \<and> compareFiles coll b c \<le> 0 \<longrightarrow> compareFiles coll a c \<le> 0)
   \<and> filter (\<lambda>y. compareFiles coll y a = 0) (sortCmp (compareFiles coll) xs)
       = filter (\<lambda>y. compareFiles coll y a = 0) xs"
proof -
  have st: "filter (\<lambda>y. compareFiles coll y a = 0) (sortCmp (compareFiles coll) xs)
       = filter (\<lambda>y. compareFiles coll y a = 0) xs"
  proof -
    have "(\<lambda>y. compareFiles coll y a = 0) = (\<lambda>y. fileKey coll y = fileKey coll a)"
      by (auto simp: compareFiles_zero fileKey_def)
    then show ?thesis by (simp add: sortCmp_key sort_key_stable)
  qed
  have z: "compareFiles coll a a = 0" by (simp add: compareFiles_zero)
  from compareFiles_zero[of coll a b] z compareFiles_flip[of coll b a]
    compareFiles_trans[of coll a b c] st
  show ?thesis by blast
qed

text \<open>Two spellings of one name compare equal, and keep their order in the sorted list.\<close>

theorem comparator_total_stable_witness:
  "compareFiles baseLetters ''a.ts'' ''A.ts'' = 0
   \<and> compareFiles baseLetters ''A.ts'' ''a.ts'' = 0
   \<and> sortCmp (compareFiles baseLetters) [''b.ts'', ''a.ts'', ''A.ts''] = [''a.ts'', ''A.ts'', ''b.ts'']
   \<and> sortCmp (compareFiles baseLetters) [''b.ts'', ''A.ts'', ''a.ts''] = [''A.ts'', ''a.ts'', ''b.ts'']"
proof -
  have k: "looksLikeDir ''a.ts'' = looksLikeDir ''A.ts'' \<and> baseLetters ''a.ts'' = baseLetters ''A.ts''"
    by code_simp
  have s: "sortCmp (compareFiles baseLetters) [''b.ts'', ''a.ts'', ''A.ts''] = [''a.ts'', ''A.ts'', ''b.ts'']"
    "sortCmp (compareFiles baseLetters) [''b.ts'', ''A.ts'', ''a.ts''] = [''A.ts'', ''a.ts'', ''b.ts'']"
    by code_simp+
  from comparator_total_stable[of baseLetters "''a.ts''" "''A.ts''"] k
  have "compareFiles baseLetters ''a.ts'' ''A.ts'' = 0 \<and> compareFiles baseLetters ''A.ts'' ''a.ts'' = 0"
    by simp
  with s show ?thesis by simp
qed

text \<open>C7 as stated fails: \<open>a.ts\<close> and \<open>A.ts\<close> are different paths, and the comparator, which
  asks the collation to ignore case, gives zero on them.\<close>

theorem comparator_distinct_equal_counterexample:
  "''a.ts'' \<noteq> ''A.ts'' \<and> compareFiles baseLetters ''a.ts'' ''A.ts'' = 0"
  by code_simp

subsection \<open>Normalising branch names\<close>

text \<open>
  C8, as the code has it. Each of the two normalisations removes one occurrence of its
  prefix. Cleaning a name of \<open>remotes/\<close> twice gives what cleaning it once gives exactly when
  the cleaned name has no \<open>remotes/\<close> left in it; stripping the \<open>refs/\<close> prefix twice gives what
  stripping it once gives exactly when the stripped name starts with no such prefix.
\<close>

theorem normalization_twice:
  "((cleanRemotes (cleanRemotes s) = cleanRemotes s)
      = (\<not> includesStr (cleanRemotes s) ''remotes/''))
   \<and> ((normalizeRef (normalizeRef s) = normalizeRef s)
      = (refPrefix (normalizeRef s) = None))"
  by (simp add: cleanRemotes_fixed normalizeRef_fixed)

text \<open>The names git prints for a remote branch and a full local reference: normalising
  them twice changes nothing more.\<close>

theorem normalization_twice_witness:
  "cleanRemotes (cleanRemotes ''remotes/origin/main'') = cleanRemotes ''remotes/origin/main''
   \<and> normalizeRef (normalizeRef ''refs/heads/feature/x'') = normalizeRef ''refs/heads/feature/x''"
proof -
  have a: "\<not> includesStr (cleanRemotes ''remotes/origin/main'') ''remotes/''"
    by code_simp
  have b: "refPrefix (normalizeRef ''refs/heads/feature/x'') = None"
    by code_simp
  from a b normalization_twice[of "''remotes/origin/main''"]
    normalization_twice[of "''refs/heads/feature/x''"]
  show ?thesis by blast
qed

text \<open>
  C8 as stated fails. The branch \<open>remotes/x\<close> of the remote \<open>origin\<close> is listed as
  \<open>remotes/origin/remotes/x\<close>: cleaning it once gives \<open>origin/remotes/x\<close>, cleaning it again
  gives \<open>origin/x\<close>. Likewise \<open>refs/heads/refs/heads/x\<close> loses one prefix at each pass.
\<close>

theorem normalization_idempotent_counterexample:
  "cleanRemotes (cleanRemotes ''remotes/origin/remotes/x'') \<noteq> cleanRemotes ''remotes/origin/remotes/x''
   \<and> normalizeRef (normalizeRef ''refs/heads/refs/heads/x'') \<noteq> normalizeRef ''refs/heads/refs/heads/x''"
  by code_simp

subsection \<open>The check of the working tree\<close>

text \<open>
  C9, as the code has it. Once a folder is chosen, the check of the working tree is the
  second command run: only the listing of the directories of line 173 comes before it, and
  the listing of the branches and every log, diff and status command come after it. When
  the check throws and the folder is outside the workspace, the handler ends at once with
  the message that the folder is no repository. In every other case, a folder of the
  workspace or a check that returns, whatever it prints, the handler goes on to list the
  branches, and ends with an error message when that listing fails.
\<close>

theorem work_tree_check:
  assumes "pickFolder (directoriesOf (fst (execSyncSortUniq sys getDirectoriesCommand workspacePath [])))
             = Some d"
    and "repoPath = (if isExternal d then absolutePath d else workspacePath)"
  shows "(\<exists>rest. snd (selectBranchFiles sys coll pickFolder pick (Some workspacePath))
             = getDirectoriesCommand # workTreeCommand # rest)
    \<and> (isExternal d \<and> sys [getDirectoriesCommand] repoPath workTreeCommand = Inl e \<longrightarrow>
         selectBranchFiles sys coll pickFolder pick (Some workspacePath)
           = (ShowErrorMessage notGitMessage, [getDirectoriesCommand, workTreeCommand]))
    \<and> (\<not> (isExternal d \<and> isl (sys [getDirectoriesCommand] repoPath workTreeCommand))
         \<and> sys [getDirectoriesCommand, workTreeCommand] repoPath branchesCommand = Inl m \<longrightarrow>
         selectBranchFiles sys coll pickFolder pick (Some workspacePath)
           = (ShowErrorMessage (''Failed to get Git branches: '' @ m),
              [getDirectoriesCommand, workTreeCommand, branchesCommand]))
    \<and> getDirectoriesCommand = ''git ls-files --directory | xargs -n 1 dirname | sort | uniq''
    \<and> workTreeCommand = ''git rev-parse --is-inside-work-tree''
    \<and> branchesCommand = ''git branch --all''"
proof -
  have f: "selectBranchFiles sys coll pickFolder pick (Some workspacePath)
     = branchFilesOfFolder sys coll pick workspacePath d [getDirectoriesCommand]"
    using assms(1) by (rule selectBranchFiles_folder)
  have 1: "\<exists>rest. snd (selectBranchFiles sys coll pickFolder pick (Some workspacePath))
             = getDirectoriesCommand # workTreeCommand # rest"
    unfolding f
    using branchFilesOfFolder_first[of sys coll pick workspacePath d "[getDirectoriesCommand]"]
    by simp
  have 2: "selectBranchFiles sys coll pickFolder pick (Some workspacePath)
           = (ShowErrorMessage notGitMessage, [getDirectoriesCommand, workTreeCommand])"
    if "isExternal d" "sys [getDirectoriesCommand] repoPath workTreeCommand = Inl e"
    unfolding f using that assms(2) by (simp add: branchFilesOfFolder_def execSync_def)
  have 3: "selectBranchFiles sys coll pickFolder pick (Some workspacePath)
           = (ShowErrorMessage (''Failed to get Git branches: '' @ m),
              [getDirectoriesCommand, workTreeCommand, branchesCommand])"
    if "\<not> (isExternal d \<and> isl (sys [getDirectoriesCommand] repoPath workTreeCommand))"
      "sys [getDirectoriesCommand, workTreeCommand] repoPath branchesCommand = Inl m"
    unfolding f using that assms(2) by (auto simp: branchFilesOfFolder_def execSync_def Let_def)
  have 4: "getDirectoriesCommand = ''git ls-files --directory | xargs -n 1 dirname | sort | uniq''"
    "workTreeCommand = ''git rev-parse --is-inside-work-tree''"
    "branchesCommand = ''git branch --all''"
    by (simp_all add: getDirectoriesCommand_def workTreeCommand_def branchesCommand_def)
  from 1 2 3 4 show ?thesis by blast
qed

text \<open>No command succeeds: the external folder is refused after the check, the workspace
  folder after the listing of the branches.\<close>

theorem work_tree_check_witness:
  "selectBranchFiles (replay []) baseLetters (chooseFolder externalFolder) (pickLabel ''main'')
       (Some ''/repo'')
     = (ShowErrorMessage notGitMessage, [getDirectoriesCommand, workTreeCommand])
   \<and> selectBranchFiles (replay []) baseLetters (chooseFolder wholeRepository) (pickLabel ''main'')
       (Some ''/repo'')
     = (ShowErrorMessage ''Failed to get Git branches: fatal: the command failed'',
        [getDirectoriesCommand, workTreeCommand, branchesCommand])"
proof -
  have c: "chooseFolder externalFolder
        (directoriesOf (fst (execSyncSortUniq (replay []) getDirectoriesCommand ''/repo'' [])))
      = Some externalFolder"
    "chooseFolder wholeRepository
        (directoriesOf (fst (execSyncSortUniq (replay []) getDirectoriesCommand ''/repo'' [])))
      = Some wholeRepository"
    by (simp_all add: chooseFolder_def)
  have p: "''/other'' = (if isExternal externalFolder then absolutePath externalFolder else ''/repo'')"
    "''/repo'' = (if isExternal wholeRepository then absolutePath wholeRepository else ''/repo'')"
    by code_simp+
  have e: "isExternal externalFolder" "\<not> isExternal wholeRepository"
    by code_simp+
  have f: "replay [] [getDirectoriesCommand] ''/other'' workTreeCommand
      = Inl ''fatal: the command failed''"
    "replay [] [getDirectoriesCommand, workTreeCommand] ''/repo'' branchesCommand
      = Inl ''fatal: the command failed''"
    by code_simp+
  have k: "''Failed to get Git branches: '' @ ''fatal: the command failed''
     = ''Failed to get Git branches: fatal: the command failed''"
    by simp
  from work_tree_check[where sys = "replay []" and pickFolder = "chooseFolder externalFolder"
      and workspacePath = "''/repo''" and d = externalFolder and repoPath = "''/other''"
      and e = "''fatal: the command failed''" and coll = baseLetters
      and pick = "pickLabel ''main''", OF c(1) p(1)] e f
  have a: "selectBranchFiles (replay []) baseLetters (chooseFolder externalFolder) (pickLabel ''main'')
       (Some ''/repo'')
     = (ShowErrorMessage notGitMessage, [getDirectoriesCommand, workTreeCommand])"
    by simp
  from work_tree_check[where sys = "replay []" and pickFolder = "chooseFolder wholeRepository"
      and workspacePath = "''/repo''" and d = wholeRepository and repoPath = "''/repo''"
      and m = "''fatal: the command failed''" and coll = baseLetters
      and pick = "pickLabel ''main''", OF c(2) p(2)] e f
  have b: "selectBranchFiles (replay []) baseLetters (chooseFolder wholeRepository) (pickLabel ''main'')
       (Some ''/repo'')
     = (ShowErrorMessage (''Failed to get Git branches: '' @ ''fatal: the command failed''),
        [getDirectoriesCommand, workTreeCommand, branchesCommand])"
    by simp
  from a b show ?thesis by (simp only: k)
qed

text \<open>
  C9 as stated fails. A bare repository is no working tree: there the check succeeds and
  prints \<open>false\<close>. The answer is not read; the branches are listed, and the files of the
  branch chosen are resolved and shown.
\<close>

theorem work_tree_check_counterexample:
  "repoBare [getDirectoriesCommand] ''/repo'' workTreeCommand = Inr ''false\<newline>''
   \<and> selectBranchFiles repoBare baseLetters (chooseFolder wholeRepository) (pickLabel ''main'')
        (Some ''/repo'')
     = (ShowDocument
          \<lparr> committedFiles = [''README'', ''src/a.ts''], modifiedFiles = [],
            changedFiles = [''README'', ''src/a.ts''], sortedFiles = [''README'', ''src/a.ts''],
            formattedFiles = [''  README'', ''  src/a.ts''] \<rparr>,
        [getDirectoriesCommand, workTreeCommand, branchesCommand, showRefCommand,
         allFilesCommand ''main'' '''', currentBranchCommand, statusCommand])"
  by code_simp

end
